theory Spec2Isabelle
  imports Main
begin

section \<open>The SODA API notebook: query, fetch, save to CSV\<close>

text \<open>
  The repository is one notebook, \<^verbatim>\<open>A1/SODA_API_demo.ipynb\<close>. Its code cells are
  straight-line Python:
  \<^verbatim>\<open>
  bp_endpoint = "https://data.seattle.gov/resource/76t5-zqzr.json?"
  bp_request = requests.get(bp_endpoint, params=bp_api_params)
  bp_data = bp_request.json()
  pprint(bp_request.url)
  pprint(bp_data[:5])

  with open('1000_most_recent_residential_permits.csv', 'w', encoding='utf-8') as csv_outfile:
      writer = csv.writer(csv_outfile)
      writer.writerow(('permit number', 'description', 'building type', 'completed date'))
      for b in bp_data:
          writer.writerow((b['PermitNum'], b['Description'], b['PermitClass'], b['CompletedDate']))
  \<close>
  The cells are modelled as functions of what they read: the endpoint, the parameter
  dictionary, the answer of the HTTP server, and the list of (column title, source
  field) pairs that the two tuples of the CSV cell spell out. A string is the list of
  the bytes of its UTF-8 encoding, which is what the file opened with
  \<^verbatim>\<open>encoding='utf-8'\<close> receives; the characters the code treats specially (comma, double
  quote, CR, LF, and the ASCII characters of URL encoding) are single bytes that occur in
  UTF-8 only as themselves. Strings that have no UTF-8 encoding (unpaired surrogates) are
  outside the model.
\<close>

subsection \<open>Python values and exceptions\<close>

text \<open>
  What \<^verbatim>\<open>bp_request.json()\<close> can return. A dictionary is the list of its items in
  insertion order. A float takes part in no computation here and is carried as the text
  \<^verbatim>\<open>str()\<close> gives it.
\<close>

datatype pyval =
    PNone
  | PBool bool
  | PInt int
  | PFloat string
  | PStr string
  | PList "pyval list"
  | PDict "(string \<times> pyval) list"

text \<open>The exceptions that the cells can raise. A KeyError is kept with its key; what
  the other exceptions carry (messages, the text that failed to decode) is left out.\<close>

datatype error =
    KeyError string
  | TypeError
  | JSONDecodeError
  | RequestException

abbreviation CR :: char where "CR \<equiv> CHR 0x0D"
abbreviation LF :: char where "LF \<equiv> CHR 0x0A"
abbreviation DQUOTE :: char where "DQUOTE \<equiv> CHR 0x22"
abbreviation COMMA :: char where "COMMA \<equiv> CHR 0x2C"

text \<open>\<^verbatim>\<open>b[k]\<close> for a string key: a dictionary looks the key up and raises KeyError when
  it is absent; a string or a list wants integer indices, and None, a bool or a number
  is not subscriptable (TypeError both).\<close>

fun subscript :: "pyval \<Rightarrow> string \<Rightarrow> error + pyval" where
  "subscript (PDict kvs) k =
     (case map_of kvs k of None \<Rightarrow> Inl (KeyError k) | Some v \<Rightarrow> Inr v)"
| "subscript b k = Inl TypeError"

text \<open>\<^verbatim>\<open>for b in bp_data\<close>: a list yields its elements, a dictionary its keys, a string
  its characters (one-character strings; of a non-ASCII string the model yields bytes,
  which only matters through their number being zero or not); anything else is not
  iterable.\<close>

fun iterate :: "pyval \<Rightarrow> error + pyval list" where
  "iterate (PList xs) = Inr xs"
| "iterate (PDict kvs) = Inr (map (\<lambda>kv. PStr (fst kv)) kvs)"
| "iterate (PStr s) = Inr (map (\<lambda>c. PStr [c]) s)"
| "iterate v = Inl TypeError"

text \<open>\<^verbatim>\<open>bp_data[:5]\<close>, evaluated for display: a list or a string is sliced; a dictionary
  refuses the slice as a key (TypeError: unhashable type, in the Python of the notebook)
  and the rest is not subscriptable.\<close>

fun slice5 :: "pyval \<Rightarrow> error + pyval" where
  "slice5 (PList xs) = Inr (PList (take 5 xs))"
| "slice5 (PStr s) = Inr (PStr (take 5 s))"
| "slice5 v = Inl TypeError"

subsection \<open>csv.writer with the default dialect\<close>

text \<open>
  Modelled from the spec: the row format of \<^verbatim>\<open>csv.writer\<close>, which belongs to Python's
  standard library and not to the repository. The specification asks for the standard
  CSV quoting rules; they are taken as the writer's default ("excel") dialect applies
  them: the delimiter is a comma, a field that contains a comma, a double quote, CR or LF
  is put in double quotes with every double quote in it doubled, other fields are
  written as they are (a NUL among them, as in Python 3.11 and later), and a row ends
  with CR LF. A field that is not a string is
  written as \<^verbatim>\<open>str()\<close> of it, None as the empty string. \<^verbatim>\<open>str()\<close> of a nested list or
  dictionary is Python's repr, which depends on the Unicode character database; it is
  the parameter \<open>repr\<close> of the model.
\<close>

function show_nat :: "nat \<Rightarrow> string" where
  "show_nat n =
     (if n < 10 then [char_of (48 + n)]
      else show_nat (n div 10) @ [char_of (48 + n mod 10)])"
  by pat_completeness auto
termination
  by (relation "measure id") auto

declare show_nat.simps [simp del]

definition str_int :: "int \<Rightarrow> string" where
  "str_int i = (if i < 0 then CHR ''-'' # show_nat (nat (- i)) else show_nat (nat i))"

fun cell :: "(pyval \<Rightarrow> string) \<Rightarrow> pyval \<Rightarrow> string" where
  "cell repr PNone = []"
| "cell repr (PStr s) = s"
| "cell repr (PBool b) = (if b then ''True'' else ''False'')"
| "cell repr (PInt i) = str_int i"
| "cell repr (PFloat t) = t"
| "cell repr (PList xs) = repr (PList xs)"
| "cell repr (PDict kvs) = repr (PDict kvs)"

definition special :: "char \<Rightarrow> bool" where
  "special c = (c = COMMA \<or> c = DQUOTE \<or> c = CR \<or> c = LF)"

fun escape :: "string \<Rightarrow> string" where
  "escape [] = []"
| "escape (c # cs) = (if c = DQUOTE then DQUOTE # DQUOTE # escape cs else c # escape cs)"

definition quote_field :: "string \<Rightarrow> string" where
  "quote_field s = (if list_ex special s then DQUOTE # escape s @ [DQUOTE] else s)"

fun join :: "string list \<Rightarrow> string" where
  "join [] = []"
| "join [f] = f"
| "join (f # g # fs) = f @ COMMA # join (g # fs)"

text \<open>A row whose text would be empty although it has a field (one empty field) is
  written as a pair of quotes, so that it differs from a row of no field.\<close>

definition row_text :: "string list \<Rightarrow> string" where
  "row_text fields =
     (let s = join (map quote_field fields)
      in (if s = [] \<and> fields \<noteq> [] then [DQUOTE, DQUOTE] else s) @ [CR, LF])"

subsection \<open>The output file\<close>

text \<open>
  \<^verbatim>\<open>open(name, 'w')\<close> creates or truncates the file; writes collect in the handle's
  buffer; closing flushes the buffer to the file. On Windows the text layer would also
  turn every LF into CR LF; the model is the POSIX behaviour, where text is written as
  it is.
\<close>

record outfile =
  disk :: "string option"
  buffer :: string
  is_open :: bool

definition open_w :: "outfile \<Rightarrow> outfile" where
  "open_w f = \<lparr>disk = Some [], buffer = [], is_open = True\<rparr>"

definition write_text :: "string \<Rightarrow> outfile \<Rightarrow> outfile" where
  "write_text s f = f\<lparr>buffer := buffer f @ s\<rparr>"

definition close :: "outfile \<Rightarrow> outfile" where
  "close f = \<lparr>disk = map_option (\<lambda>d. d @ buffer f) (disk f), buffer = [], is_open = False\<rparr>"

definition writerow :: "(pyval \<Rightarrow> string) \<Rightarrow> pyval list \<Rightarrow> outfile \<Rightarrow> outfile" where
  "writerow repr vs f = write_text (row_text (map (cell repr) vs)) f"

subsection \<open>Saving to CSV\<close>

text \<open>The state the CSV cell works on: the variable \<^verbatim>\<open>bp_data\<close> and the output file.\<close>

record notebook =
  bp_data :: pyval
  csv_outfile :: outfile

text \<open>The tuple \<^verbatim>\<open>(b[k1], b[k2], ...)\<close>: the subscripts are evaluated from left to
  right and the first that raises ends the evaluation.\<close>

fun project :: "string list \<Rightarrow> pyval \<Rightarrow> error + pyval list" where
  "project [] b = Inr []"
| "project (k # ks) b =
     (case subscript b k of
        Inl e \<Rightarrow> Inl e
      | Inr v \<Rightarrow> (case project ks b of Inl e \<Rightarrow> Inl e | Inr vs \<Rightarrow> Inr (v # vs)))"

text \<open>The body of the \<^verbatim>\<open>for\<close> loop, over the elements still to come.\<close>

fun write_rows ::
  "(pyval \<Rightarrow> string) \<Rightarrow> string list \<Rightarrow> pyval list \<Rightarrow> outfile \<Rightarrow> error option \<times> outfile" where
  "write_rows repr keys [] f = (None, f)"
| "write_rows repr keys (b # bs) f =
     (case project keys b of
        Inl e \<Rightarrow> (Some e, f)
      | Inr vs \<Rightarrow> write_rows repr keys bs (writerow repr vs f))"

text \<open>The body of the \<^verbatim>\<open>with\<close> statement: the header row, then the loop.\<close>

definition with_body ::
  "(pyval \<Rightarrow> string) \<Rightarrow> (string \<times> string) list \<Rightarrow> pyval \<Rightarrow> outfile \<Rightarrow> error option \<times> outfile" where
  "with_body repr proj dat f =
     (let f1 = writerow repr (map (\<lambda>p. PStr (fst p)) proj) f
      in case iterate dat of
           Inl e \<Rightarrow> (Some e, f1)
         | Inr bs \<Rightarrow> write_rows repr (map snd proj) bs f1)"

text \<open>The \<^verbatim>\<open>with\<close> statement: the file is opened, the body runs, and the handle is
  closed whether the body completed or raised; an exception of the body goes on to the
  caller after that.\<close>

definition save_to_csv ::
  "(pyval \<Rightarrow> string) \<Rightarrow> (string \<times> string) list \<Rightarrow> notebook \<Rightarrow> error option \<times> notebook" where
  "save_to_csv repr proj nb =
     (case with_body repr proj (bp_data nb) (open_w (csv_outfile nb)) of
        (r, f) \<Rightarrow> (r, nb\<lparr>csv_outfile := close f\<rparr>))"

text \<open>The two tuples of the notebook's cell.\<close>

definition bp_projection :: "(string \<times> string) list" where
  "bp_projection =
     [(''permit number'', ''PermitNum''), (''description'', ''Description''),
      (''building type'', ''PermitClass''), (''completed date'', ''CompletedDate'')]"

subsection \<open>Building the URL\<close>

text \<open>
  Modelled from the spec: the query encoding inside \<^verbatim>\<open>requests.get\<close>, which belongs to
  the requests library and not to the repository. The specification asks for the
  standard URL query encoding; it is taken as requests applies it to
  \<^verbatim>\<open>params=bp_api_params\<close>: every key and value goes through \<^verbatim>\<open>quote_plus\<close>
  (letters, digits and \<^verbatim>\<open>_ . - ~\<close> stay, a space becomes \<^verbatim>\<open>+\<close>, every other byte
  becomes \<^verbatim>\<open>%XX\<close> with upper-case hexadecimal digits), a pair is \<^verbatim>\<open>key=value\<close>, the
  pairs are joined by \<^verbatim>\<open>&\<close>, and the result is appended to the query of the endpoint.
  The URL that the notebook printed for its own parameters is the one the model builds
  (lemma \<open>bp_request_url\<close> below). The normalisation that requests applies to the
  endpoint itself (host, empty path, fragment) is not modelled: the endpoint is taken to
  be a normal URL with a path and no fragment, as both endpoints of the notebook are.
\<close>

definition unreserved :: "char \<Rightarrow> bool" where
  "unreserved c =
     (let n = (of_char c :: nat)
      in (48 \<le> n \<and> n \<le> 57) \<or> (65 \<le> n \<and> n \<le> 90) \<or> (97 \<le> n \<and> n \<le> 122)
         \<or> c = CHR ''_'' \<or> c = CHR ''.'' \<or> c = CHR ''-'' \<or> c = CHR ''~'')"

definition hex_digit :: "nat \<Rightarrow> char" where
  "hex_digit d = (if d < 10 then char_of (48 + d) else char_of (55 + d))"

definition percent :: "char \<Rightarrow> string" where
  "percent c =
     (let n = (of_char c :: nat) in [CHR ''%'', hex_digit (n div 16), hex_digit (n mod 16)])"

fun quote_plus :: "string \<Rightarrow> string" where
  "quote_plus [] = []"
| "quote_plus (c # cs) =
     (if c = CHR '' '' then CHR ''+'' # quote_plus cs
      else if unreserved c then c # quote_plus cs
      else percent c @ quote_plus cs)"

fun join_amp :: "string list \<Rightarrow> string" where
  "join_amp [] = []"
| "join_amp [p] = p"
| "join_amp (p # q # ps) = p @ CHR ''&'' # join_amp (q # ps)"

definition urlencode :: "(string \<times> string) list \<Rightarrow> string" where
  "urlencode params =
     join_amp (map (\<lambda>kv. quote_plus (fst kv) @ CHR ''='' # quote_plus (snd kv)) params)"

definition query_of :: "string \<Rightarrow> string" where
  "query_of url = drop 1 (dropWhile (\<lambda>c. c \<noteq> CHR ''?'') url)"

definition build_url :: "string \<Rightarrow> (string \<times> string) list \<Rightarrow> string" where
  "build_url endpoint params =
     (let base = takeWhile (\<lambda>c. c \<noteq> CHR ''?'') endpoint;
          query = query_of endpoint;
          enc = urlencode params;
          q = (if enc = [] then query else if query = [] then enc else query @ CHR ''&'' # enc)
      in if q = [] then base else base @ CHR ''?'' # q)"

text \<open>The first cell builds its URL by hand from a query string that is already
  written out, with no encoding and no mapping:
  \<^verbatim>\<open>test_url = test_endpoint + test_params\<close>.\<close>

definition test_endpoint :: string where
  "test_endpoint = ''https://data.seattle.gov/resource/76t5-zqzr.json?''"

definition test_params :: string where
  "test_params = ''$where=(PermitNum='' @ [CHR 0x27] @ ''6531736-PH'' @ [CHR 0x27] @ '')''"

definition test_url :: string where
  "test_url = test_endpoint @ test_params"

definition bp_endpoint :: string where
  "bp_endpoint = ''https://data.seattle.gov/resource/76t5-zqzr.json?''"

definition bp_api_params :: "(string \<times> string) list" where
  "bp_api_params =
     [(''$select'', ''PermitNum, PermitClass, CompletedDate, Description''),
      (''$where'',
       ''(PermitClass='' @ [CHR 0x27] @ ''Multifamily'' @ [CHR 0x27] @ '' OR PermitClass=''
       @ [CHR 0x27] @ ''Single Family/Duplex'' @ [CHR 0x27] @ '') AND PermitTypeDesc=''
       @ [CHR 0x27] @ ''New'' @ [CHR 0x27] @ '' AND CompletedDate > '' @ [CHR 0x27]
       @ ''2006-01-01'' @ [CHR 0x27]),
      (''$order'', ''CompletedDate DESC''),
      (''$limit'', ''1000'')]"

subsection \<open>Fetching\<close>

text \<open>
  The server's answer, as far as the notebook reads it: the status code, which no line
  of the notebook looks at, and what \<^verbatim>\<open>json.loads\<close> makes of the body (None when the
  body is not valid JSON). \<^verbatim>\<open>requests.get\<close> is the parameter \<open>http\<close>: it answers a URL
  with a response or raises (no connection, timeout).
\<close>

record response =
  status_code :: nat
  json_value :: "pyval option"

definition json :: "response \<Rightarrow> error + pyval" where
  "json r = (case json_value r of None \<Rightarrow> Inl JSONDecodeError | Some v \<Rightarrow> Inr v)"

text \<open>\<^verbatim>\<open>bp_request = requests.get(bp_endpoint, params=bp_api_params)\<close> and
  \<^verbatim>\<open>bp_data = bp_request.json()\<close>.\<close>

definition fetch ::
  "(string \<Rightarrow> error + response) \<Rightarrow> string \<Rightarrow> (string \<times> string) list \<Rightarrow> error + pyval" where
  "fetch http endpoint params =
     (case http (build_url endpoint params) of Inl e \<Rightarrow> Inl e | Inr r \<Rightarrow> json r)"

text \<open>The whole query cell: the assignment of \<^verbatim>\<open>bp_data\<close>, then the two displays, of
  which \<^verbatim>\<open>pprint(bp_data[:5])\<close> can raise.\<close>

definition query_cell ::
  "(string \<Rightarrow> error + response) \<Rightarrow> string \<Rightarrow> (string \<times> string) list \<Rightarrow> notebook
     \<Rightarrow> error option \<times> notebook" where
  "query_cell http endpoint params nb =
     (case fetch http endpoint params of
        Inl e \<Rightarrow> (Some e, nb)
      | Inr d \<Rightarrow>
          (case slice5 d of
             Inl e \<Rightarrow> (Some e, nb\<lparr>bp_data := d\<rparr>)
           | Inr v \<Rightarrow> (None, nb\<lparr>bp_data := d\<rparr>)))"

text \<open>Running the notebook from top to bottom: the CSV cell runs only when the query
  cell has completed.\<close>

definition run_all ::
  "(pyval \<Rightarrow> string) \<Rightarrow> (string \<Rightarrow> error + response) \<Rightarrow> string \<Rightarrow> (string \<times> string) list
     \<Rightarrow> (string \<times> string) list \<Rightarrow> notebook \<Rightarrow> error option \<times> notebook" where
  "run_all repr http endpoint params proj nb =
     (case query_cell http endpoint params nb of
        (Some e, nb1) \<Rightarrow> (Some e, nb1)
      | (None, nb1) \<Rightarrow> save_to_csv repr proj nb1)"

subsection \<open>Reading text back\<close>

text \<open>
  The lines of a text as Python's file iteration gives them when no newline translation
  is asked for (\<^verbatim>\<open>newline=''\<close>, what the csv module wants of its input): a line ends
  after LF, after CR LF, or after a CR that no LF follows, and keeps its ending.
\<close>

definition line_end :: "char \<Rightarrow> string \<Rightarrow> bool" where
  "line_end c cs = (c = LF \<or> (c = CR \<and> (case cs of [] \<Rightarrow> True | d # ds \<Rightarrow> d \<noteq> LF)))"

fun splitlines :: "string \<Rightarrow> string list" where
  "splitlines [] = []"
| "splitlines (c # cs) =
     (if line_end c cs then [c] # splitlines cs
      else (case splitlines cs of [] \<Rightarrow> [[c]] | l # ls \<Rightarrow> (c # l) # ls))"

text \<open>
  Modelled from the spec: the standard CSV parser of the specification's round trip;
  the notebook reads no CSV. It is \<^verbatim>\<open>csv.reader\<close> with the same default dialect, as the
  C implementation of Python's csv module runs it (Python 3.11 and later, where a NUL is
  an ordinary character): a state machine over the characters of each line, fed an
  end-of-line mark (here \<open>None\<close>) after the last character of the line. A record is
  complete when the machine is back in \<open>START_RECORD\<close> after a line; a line that
  ends inside a quoted field is continued by the next one. The only error of the
  non-strict dialect is a character after a line break outside quotes.
\<close>

datatype rstate =
    START_RECORD
  | START_FIELD
  | IN_FIELD
  | IN_QUOTED_FIELD
  | QUOTE_IN_QUOTED_FIELD
  | EAT_CRNL

record parser =
  state :: rstate
  field :: string
  saved_fields :: "string list"

definition parse_reset :: parser where
  "parse_reset = \<lparr>state = START_RECORD, field = [], saved_fields = []\<rparr>"

definition parse_save_field :: "parser \<Rightarrow> parser" where
  "parse_save_field p = p\<lparr>saved_fields := saved_fields p @ [field p], field := []\<rparr>"

definition parse_add_char :: "char \<Rightarrow> parser \<Rightarrow> parser" where
  "parse_add_char c p = p\<lparr>field := field p @ [c]\<rparr>"

definition start_field :: "parser \<Rightarrow> char option \<Rightarrow> parser" where
  "start_field p c =
     (case c of
        None \<Rightarrow> (parse_save_field p)\<lparr>state := START_RECORD\<rparr>
      | Some x \<Rightarrow>
          if x = LF \<or> x = CR then (parse_save_field p)\<lparr>state := EAT_CRNL\<rparr>
          else if x = DQUOTE then p\<lparr>state := IN_QUOTED_FIELD\<rparr>
          else if x = COMMA then (parse_save_field p)\<lparr>state := START_FIELD\<rparr>
          else (parse_add_char x p)\<lparr>state := IN_FIELD\<rparr>)"

definition parse_process_char :: "parser \<Rightarrow> char option \<Rightarrow> parser option" where
  "parse_process_char p c =
     (case state p of
        START_RECORD \<Rightarrow>
          (case c of
             None \<Rightarrow> Some p
           | Some x \<Rightarrow>
               if x = LF \<or> x = CR then Some (p\<lparr>state := EAT_CRNL\<rparr>)
               else Some (start_field p c))
      | START_FIELD \<Rightarrow> Some (start_field p c)
      | IN_FIELD \<Rightarrow>
          (case c of
             None \<Rightarrow> Some ((parse_save_field p)\<lparr>state := START_RECORD\<rparr>)
           | Some x \<Rightarrow>
               if x = LF \<or> x = CR then Some ((parse_save_field p)\<lparr>state := EAT_CRNL\<rparr>)
               else if x = COMMA then Some ((parse_save_field p)\<lparr>state := START_FIELD\<rparr>)
               else Some (parse_add_char x p))
      | IN_QUOTED_FIELD \<Rightarrow>
          (case c of
             None \<Rightarrow> Some p
           | Some x \<Rightarrow>
               if x = DQUOTE then Some (p\<lparr>state := QUOTE_IN_QUOTED_FIELD\<rparr>)
               else Some (parse_add_char x p))
      | QUOTE_IN_QUOTED_FIELD \<Rightarrow>
          (case c of
             None \<Rightarrow> Some ((parse_save_field p)\<lparr>state := START_RECORD\<rparr>)
           | Some x \<Rightarrow>
               if x = DQUOTE then Some ((parse_add_char x p)\<lparr>state := IN_QUOTED_FIELD\<rparr>)
               else if x = COMMA then Some ((parse_save_field p)\<lparr>state := START_FIELD\<rparr>)
               else if x = LF \<or> x = CR then Some ((parse_save_field p)\<lparr>state := EAT_CRNL\<rparr>)
               else Some ((parse_add_char x p)\<lparr>state := IN_FIELD\<rparr>))
      | EAT_CRNL \<Rightarrow>
          (case c of
             None \<Rightarrow> Some (p\<lparr>state := START_RECORD\<rparr>)
           | Some x \<Rightarrow> if x = LF \<or> x = CR then Some p else None))"

fun process_line :: "parser \<Rightarrow> string \<Rightarrow> parser option" where
  "process_line p [] = parse_process_char p None"
| "process_line p (c # cs) =
     (case parse_process_char p (Some c) of
        None \<Rightarrow> None
      | Some p1 \<Rightarrow> process_line p1 cs)"

text \<open>The records of a list of lines. When the input ends inside a record (a quoted
  field was never closed), what has been read is the last record.\<close>

fun read_lines :: "parser \<Rightarrow> string list \<Rightarrow> string list list option" where
  "read_lines p [] =
     (if field p \<noteq> [] \<or> state p = IN_QUOTED_FIELD then Some [saved_fields p @ [field p]]
      else Some [])"
| "read_lines p (l # ls) =
     (case process_line p l of
        None \<Rightarrow> None
      | Some p1 \<Rightarrow>
          if state p1 = START_RECORD
          then map_option (\<lambda>rows. saved_fields p1 # rows) (read_lines parse_reset ls)
          else read_lines p1 ls)"

definition csv_reader :: "string \<Rightarrow> string list list option" where
  "csv_reader text = read_lines parse_reset (splitlines text)"

text \<open>
  Modelled from the spec: the standard URL decoding of the specification's round trip;
  the notebook decodes no URL. It is \<^verbatim>\<open>urllib.parse.parse_qsl\<close> with
  \<^verbatim>\<open>keep_blank_values=True\<close>: the query is cut at every \<^verbatim>\<open>&\<close>, an empty piece is
  skipped, a piece is cut at its first \<^verbatim>\<open>=\<close> (a piece with none has the empty value),
  and name and value are decoded by \<^verbatim>\<open>unquote_plus\<close>: \<^verbatim>\<open>+\<close> is a space and \<^verbatim>\<open>%\<close>
  followed by two hexadecimal digits is the byte they denote.
\<close>

definition hex_val :: "char \<Rightarrow> nat option" where
  "hex_val c =
     (let n = (of_char c :: nat)
      in if 48 \<le> n \<and> n \<le> 57 then Some (n - 48)
         else if 65 \<le> n \<and> n \<le> 70 then Some (n - 55)
         else if 97 \<le> n \<and> n \<le> 102 then Some (n - 87)
         else None)"

fun unquote_plus :: "string \<Rightarrow> string" where
  "unquote_plus [] = []"
| "unquote_plus (c # cs) =
     (if c = CHR ''+'' then CHR '' '' # unquote_plus cs
      else if c = CHR ''%'' then
        (case cs of
           h1 # h2 # rest \<Rightarrow>
             (case (hex_val h1, hex_val h2) of
                (Some a, Some b) \<Rightarrow> char_of (16 * a + b) # unquote_plus rest
              | _ \<Rightarrow> c # unquote_plus cs)
         | _ \<Rightarrow> c # unquote_plus cs)
      else c # unquote_plus cs)"

fun split_on :: "char \<Rightarrow> string \<Rightarrow> string list" where
  "split_on sep [] = [[]]"
| "split_on sep (c # cs) =
     (if c = sep then [] # split_on sep cs
      else (case split_on sep cs of [] \<Rightarrow> [[c]] | p # ps \<Rightarrow> (c # p) # ps))"

definition parse_pair :: "string \<Rightarrow> string \<times> string" where
  "parse_pair piece =
     (unquote_plus (takeWhile (\<lambda>c. c \<noteq> CHR ''='') piece),
      unquote_plus (drop 1 (dropWhile (\<lambda>c. c \<noteq> CHR ''='') piece)))"

definition parse_qsl :: "string \<Rightarrow> (string \<times> string) list" where
  "parse_qsl qs = map parse_pair (filter (\<lambda>piece. piece \<noteq> []) (split_on (CHR ''&'') qs))"

section \<open>Properties\<close>

subsection \<open>Vocabulary of the statements\<close>

text \<open>A record (a dictionary) is complete for a list of keys when it has them all;
  \<open>fields_of\<close> are the cells of its row; \<open>missing_fields\<close> lists, record by
  record, the requested keys that a record lacks, and \<open>first_error\<close> is the exception
  that the first of them raises.\<close>

definition complete :: "string list \<Rightarrow> (string \<times> pyval) list \<Rightarrow> bool" where
  "complete keys r = list_all (\<lambda>k. map_of r k \<noteq> None) keys"

definition fields_of :: "(pyval \<Rightarrow> string) \<Rightarrow> string list \<Rightarrow> (string \<times> pyval) list \<Rightarrow> string list" where
  "fields_of repr keys r = map (\<lambda>k. cell repr (the (map_of r k))) keys"

definition missing_fields :: "string list \<Rightarrow> (string \<times> pyval) list list \<Rightarrow> string list" where
  "missing_fields keys rs = concat (map (\<lambda>r. filter (\<lambda>k. map_of r k = None) keys) rs)"

definition first_error :: "string list \<Rightarrow> (string \<times> pyval) list list \<Rightarrow> error option" where
  "first_error keys rs = (case missing_fields keys rs of [] \<Rightarrow> None | k # ks \<Rightarrow> Some (KeyError k))"

definition has_newline :: "string \<Rightarrow> bool" where
  "has_newline s = list_ex (\<lambda>c. c = CR \<or> c = LF) s"

text \<open>The characters a query string is made of besides \<^verbatim>\<open>=\<close> and \<^verbatim>\<open>&\<close>, and the
  encoding of one parameter.\<close>

definition url_safe :: "char \<Rightarrow> bool" where
  "url_safe c = (unreserved c \<or> c = CHR ''+'' \<or> c = CHR ''%'')"

definition encode_pair :: "string \<times> string \<Rightarrow> string" where
  "encode_pair kv = quote_plus (fst kv) @ CHR ''='' # quote_plus (snd kv)"

text \<open>The text of a list of rows, and the rows the CSV cell writes for a list of
  complete records.\<close>

definition csv_text :: "string list list \<Rightarrow> string" where
  "csv_text rows = concat (map row_text rows)"

definition written_rows ::
  "(pyval \<Rightarrow> string) \<Rightarrow> (string \<times> string) list \<Rightarrow> (string \<times> pyval) list list
     \<Rightarrow> string list list" where
  "written_rows repr proj rs = map fst proj # map (fields_of repr (map snd proj)) rs"

text \<open>Two devices of the proofs about the reader: reading on while the current line is
  still open (the lines of the rest of the text, of which the first continues the
  current line), and the parser after it has read a field from the start of the
  field.\<close>

definition mid :: "parser \<Rightarrow> string \<Rightarrow> string list list option" where
  "mid p cs = read_lines p (case splitlines cs of [] \<Rightarrow> [[]] | l # ls \<Rightarrow> l # ls)"

definition after_field :: "parser \<Rightarrow> string \<Rightarrow> parser" where
  "after_field p s =
     (if list_ex special s then p\<lparr>field := s, state := QUOTE_IN_QUOTED_FIELD\<rparr>
      else if s = [] then p
      else p\<lparr>field := s, state := IN_FIELD\<rparr>)"

text \<open>The scenario of the specification: the endpoint, the parameters, the server
  that answers the one expected URL with the canned body, the projection, and a notebook
  in which nothing has run yet: no output file, and \<^verbatim>\<open>bp_data\<close>, which no cell reads
  before the query cell binds it, standing at None.\<close>

definition scenario_endpoint :: string where
  "scenario_endpoint = ''https://example.test/resource/abc.json''"

definition scenario_params :: "(string \<times> string) list" where
  "scenario_params = [(''$limit'', ''2'')]"

definition scenario_body :: pyval where
  "scenario_body =
     PList [PDict [(''PermitNum'', PStr ''A1''), (''Description'', PStr ''x'')],
            PDict [(''PermitNum'', PStr ''A2'')]]"

definition scenario_http :: "string \<Rightarrow> error + response" where
  "scenario_http url =
     (if url = ''https://example.test/resource/abc.json?%24limit=2''
      then Inr \<lparr>status_code = 200, json_value = Some scenario_body\<rparr>
      else Inl RequestException)"

definition scenario_projection :: "(string \<times> string) list" where
  "scenario_projection = [(''permit number'', ''PermitNum''), (''description'', ''Description'')]"

definition fresh :: notebook where
  "fresh = \<lparr>bp_data = PNone, csv_outfile = \<lparr>disk = None, buffer = [], is_open = False\<rparr>\<rparr>"

text \<open>A server that answers every URL with the same response, and a repr for runs in
  which no cell is a nested object.\<close>

definition always :: "response \<Rightarrow> string \<Rightarrow> error + response" where
  "always r url = Inr r"

definition no_repr :: "pyval \<Rightarrow> string" where
  "no_repr v = []"

subsection \<open>The rows the loop writes\<close>

lemma project_record:
  "project keys (PDict r) =
     (case filter (\<lambda>k. map_of r k = None) keys of
        [] \<Rightarrow> Inr (map (\<lambda>k. the (map_of r k)) keys)
      | k # ks \<Rightarrow> Inl (KeyError k))"
  by (induction keys) (auto split: option.splits list.splits sum.splits)

lemma complete_filter: "complete keys r \<longleftrightarrow> filter (\<lambda>k. map_of r k = None) keys = []"
  by (induction keys) (auto simp: complete_def)

lemma project_complete:
  "complete keys r \<Longrightarrow> project keys (PDict r) = Inr (map (\<lambda>k. the (map_of r k)) keys)"
  by (simp add: project_record complete_filter)

lemma project_incomplete:
  "\<not> complete keys r \<Longrightarrow>
     project keys (PDict r) = Inl (KeyError (hd (filter (\<lambda>k. map_of r k = None) keys)))"
  by (auto simp: project_record complete_filter split: list.splits)

lemma first_error_Cons:
  "first_error keys (r # rs) =
     (if complete keys r then first_error keys rs
      else Some (KeyError (hd (filter (\<lambda>k. map_of r k = None) keys))))"
proof (cases "filter (\<lambda>k. map_of r k = None) keys")
  case Nil
  then show ?thesis
    by (simp add: first_error_def missing_fields_def complete_filter)
next
  case (Cons k ks)
  then show ?thesis
    by (simp add: first_error_def missing_fields_def complete_filter)
qed

lemma write_rows_records:
  "write_rows repr keys (map PDict rs) f =
     (first_error keys rs,
      f\<lparr>buffer := buffer f
           @ concat (map (\<lambda>r. row_text (fields_of repr keys r)) (takeWhile (complete keys) rs))\<rparr>)"
proof (induction rs arbitrary: f)
  case Nil
  show ?case by (simp add: first_error_def missing_fields_def)
next
  case (Cons r rs)
  show ?case
  proof (cases "complete keys r")
    case True
    then show ?thesis
      by (simp add: project_complete Cons.IH first_error_Cons writerow_def write_text_def
          fields_of_def comp_def)
  next
    case False
    then show ?thesis
      by (simp add: project_incomplete first_error_Cons)
  qed
qed

lemma save_to_csv_records:
  "save_to_csv repr proj (nb\<lparr>bp_data := PList (map PDict rs)\<rparr>) =
     (first_error (map snd proj) rs,
      nb\<lparr>bp_data := PList (map PDict rs),
         csv_outfile :=
           \<lparr>disk = Some (concat (map row_text
                (map fst proj # map (fields_of repr (map snd proj))
                                  (takeWhile (complete (map snd proj)) rs)))),
            buffer = [], is_open = False\<rparr>\<rparr>)"
  by (simp add: save_to_csv_def with_body_def write_rows_records open_w_def close_def
      writerow_def write_text_def comp_def)

lemma write_rows_frame:
  "disk (snd (write_rows repr keys bs f)) = disk f"
  by (induction bs arbitrary: f) (auto simp: writerow_def write_text_def split: sum.splits)

lemma with_body_frame:
  "disk (snd (with_body repr proj d f)) = disk f"
  by (auto simp: with_body_def write_rows_frame writerow_def write_text_def Let_def split: sum.splits)

lemma write_rows_buffer:
  "buffer (snd (write_rows repr keys bs f)) =
     buffer f @ concat (map (\<lambda>b. row_text (map (cell repr) (projr (project keys b))))
                          (takeWhile (\<lambda>b. \<not> isl (project keys b)) bs))"
  by (induction bs arbitrary: f) (auto simp: writerow_def write_text_def split: sum.splits)

lemma save_to_csv_list:
  "disk (csv_outfile (snd (save_to_csv repr proj (nb\<lparr>bp_data := PList bs\<rparr>)))) =
     Some (row_text (map fst proj)
           @ concat (map (\<lambda>b. row_text (map (cell repr) (projr (project (map snd proj) b))))
                         (takeWhile (\<lambda>b. \<not> isl (project (map snd proj) b)) bs)))"
proof -
  obtain r f where b: "with_body repr proj (PList bs) (open_w (csv_outfile nb)) = (r, f)"
    by (cases "with_body repr proj (PList bs) (open_w (csv_outfile nb))")
  have "disk f = Some []"
    using with_body_frame [of repr proj "PList bs" "open_w (csv_outfile nb)"] b
    by (simp add: open_w_def)
  moreover have "buffer f = row_text (map fst proj)
           @ concat (map (\<lambda>b. row_text (map (cell repr) (projr (project (map snd proj) b))))
                         (takeWhile (\<lambda>b. \<not> isl (project (map snd proj) b)) bs))"
    using b write_rows_buffer [of repr "map snd proj" bs
        "writerow repr (map (\<lambda>p. PStr (fst p)) proj) (open_w (csv_outfile nb))"]
    by (simp add: with_body_def writerow_def write_text_def open_w_def comp_def)
  ultimately show ?thesis
    using b by (simp add: save_to_csv_def close_def)
qed

subsection \<open>The scenario of the specification\<close>

lemma scenario_url: "build_url scenario_endpoint scenario_params = ''https://example.test/resource/abc.json?%24limit=2''"
  by code_simp

lemma scenario_query_cell:
  "query_cell scenario_http scenario_endpoint scenario_params fresh =
     (None, fresh\<lparr>bp_data := scenario_body\<rparr>)"
  by (simp add: query_cell_def fetch_def scenario_url scenario_http_def json_def
      scenario_body_def)

subsection \<open>Missing fields\<close>

text \<open>
  C1, as amended. The specification has a record that lacks a requested field give an
  empty cell. The loop subscripts the dictionary (\<^verbatim>\<open>b['Description']\<close>), so the first
  requested field that a record lacks raises KeyError with that field's name and ends
  the export: for a result set of dictionaries the outcome is the KeyError of the first
  missing field, in the order of the records and, in a record, of the columns; there is
  no error when nothing is missing. The file then holds the header row and the rows of
  the records before the failing one; no row is written for the failing record, and no
  empty string stands in for the missing field.
\<close>

theorem missing_field_raises:
  "fst (save_to_csv repr proj (nb\<lparr>bp_data := PList (map PDict rs)\<rparr>)) =
     (case missing_fields (map snd proj) rs of [] \<Rightarrow> None | k # ks \<Rightarrow> Some (KeyError k))
   \<and> disk (csv_outfile (snd (save_to_csv repr proj (nb\<lparr>bp_data := PList (map PDict rs)\<rparr>)))) =
       Some (concat (map row_text
         (map fst proj # map (fields_of repr (map snd proj))
                           (takeWhile (complete (map snd proj)) rs))))"
  by (simp add: save_to_csv_records first_error_def)

text \<open>C1 fails as stated: one record without \<^verbatim>\<open>Description\<close>, exported with the
  column \<^verbatim>\<open>description\<close>, raises KeyError and leaves the header row alone in the
  file.\<close>

theorem missing_field_counterexample:
  "fst (save_to_csv no_repr [(''description'', ''Description'')]
          (fresh\<lparr>bp_data := PList [PDict [(''PermitNum'', PStr ''A2'')]]\<rparr>))
     = Some (KeyError ''Description'')
   \<and> disk (csv_outfile (snd (save_to_csv no_repr [(''description'', ''Description'')]
          (fresh\<lparr>bp_data := PList [PDict [(''PermitNum'', PStr ''A2'')]]\<rparr>))))
     = Some (''description'' @ [CR, LF])"
  by (simp add: save_to_csv_def with_body_def fresh_def open_w_def close_def writerow_def
      write_text_def row_text_def quote_field_def special_def)

text \<open>
  C2, as amended. In the scenario the query cell asks for
  \<^verbatim>\<open>https://example.test/resource/abc.json?%24limit=2\<close> and binds the two records; the
  CSV cell writes the header row and the row of the first record, raises
  KeyError(\<^verbatim>\<open>'Description'\<close>) at the second record, which has no such field, and the
  file is closed holding the two lines \<^verbatim>\<open>permit number,description\<close> and \<^verbatim>\<open>A1,x\<close>,
  each ended by CR LF.
\<close>

theorem end_to_end_scenario:
  "run_all no_repr scenario_http scenario_endpoint scenario_params scenario_projection fresh =
     (Some (KeyError ''Description''),
      \<lparr>bp_data = scenario_body,
       csv_outfile =
         \<lparr>disk = Some (''permit number,description'' @ [CR, LF] @ ''A1,x'' @ [CR, LF]),
          buffer = [], is_open = False\<rparr>\<rparr>)"
  by (simp add: run_all_def scenario_query_cell)
    (simp add: scenario_body_def scenario_projection_def fresh_def save_to_csv_def
      with_body_def open_w_def close_def writerow_def write_text_def row_text_def
      quote_field_def special_def)

text \<open>C2 fails as stated: the run ends in the KeyError, and the file is not the three
  lines of the specification; it has two lines.\<close>

theorem end_to_end_counterexample:
  "fst (run_all no_repr scenario_http scenario_endpoint scenario_params scenario_projection fresh)
     = Some (KeyError ''Description'')
   \<and> disk (csv_outfile (snd (run_all no_repr scenario_http scenario_endpoint scenario_params
        scenario_projection fresh)))
     \<noteq> Some (''permit number,description'' @ [CR, LF] @ ''A1,x'' @ [CR, LF] @ ''A2,'' @ [CR, LF])
   \<and> map_option (\<lambda>t. length (splitlines t))
        (disk (csv_outfile (snd (run_all no_repr scenario_http scenario_endpoint scenario_params
           scenario_projection fresh))))
     = Some 2"
  by (simp add: run_all_def scenario_query_cell)
    (simp add: scenario_body_def scenario_projection_def fresh_def save_to_csv_def
      with_body_def open_w_def close_def writerow_def write_text_def row_text_def
      quote_field_def special_def line_end_def)

subsection \<open>The fetcher\<close>

text \<open>
  C3, as amended. No line of the notebook reads the status code. Whatever the status of
  the response, the fetcher returns the decoded body when the body is valid JSON and
  raises the JSON decode error when it is not, exactly as the same body with any other
  status would; the JSON decode error of a body that is not valid JSON is the only
  failure of the fetcher on a response it has received, so that no error is raised for
  the status. When the body of a response, of a non-success status as well, decodes to
  a JSON array, the run goes on to the CSV cell as it does after a success: the output
  file is created and begins with the header row.
\<close>

theorem status_not_examined:
  assumes "http (build_url endpoint params) = Inr r"
  shows "fetch http endpoint params =
           (case json_value r of None \<Rightarrow> Inl JSONDecodeError | Some v \<Rightarrow> Inr v)
         \<and> fetch (always (r\<lparr>status_code := s\<rparr>)) endpoint params = fetch http endpoint params
         \<and> (\<forall>e. fetch http endpoint params = Inl e \<longrightarrow> e = JSONDecodeError \<and> json_value r = None)
         \<and> (\<forall>bs. json_value r = Some (PList bs) \<longrightarrow>
               fst (run_all repr http endpoint params proj nb) = fst (save_to_csv repr proj (nb\<lparr>bp_data := PList bs\<rparr>))
               \<and> (\<exists>rest. disk (csv_outfile (snd (run_all repr http endpoint params proj nb)))
                      = Some (row_text (map fst proj) @ rest)))"
proof (intro conjI allI impI)
  show "fetch http endpoint params =
          (case json_value r of None \<Rightarrow> Inl JSONDecodeError | Some v \<Rightarrow> Inr v)"
    using assms by (simp add: fetch_def json_def)
  show "fetch (always (r\<lparr>status_code := s\<rparr>)) endpoint params = fetch http endpoint params"
    using assms by (simp add: fetch_def json_def always_def)
next
  fix e
  assume "fetch http endpoint params = Inl e"
  then show "e = JSONDecodeError" and "json_value r = None"
    using assms by (auto simp: fetch_def json_def split: option.splits)
next
  fix bs
  assume b: "json_value r = Some (PList bs)"
  then have run: "run_all repr http endpoint params proj nb =
      save_to_csv repr proj (nb\<lparr>bp_data := PList bs\<rparr>)"
    using assms by (simp add: run_all_def query_cell_def fetch_def json_def)
  show "fst (run_all repr http endpoint params proj nb) =
      fst (save_to_csv repr proj (nb\<lparr>bp_data := PList bs\<rparr>))"
    by (simp add: run)
  have "\<exists>rest. disk (csv_outfile (snd (save_to_csv repr proj (nb\<lparr>bp_data := PList bs\<rparr>))))
      = Some (row_text (map fst proj) @ rest)"
    by (simp add: save_to_csv_list)
  then show "\<exists>rest. disk (csv_outfile (snd (run_all repr http endpoint params proj nb)))
      = Some (row_text (map fst proj) @ rest)"
    by (auto simp: run)
qed

text \<open>The theorem at two 404 responses, one whose body is the empty JSON array and one
  whose body is not JSON, each compared with the same body under status 200.\<close>

theorem status_not_examined_witness:
  "always \<lparr>status_code = 404, json_value = Some (PList [])\<rparr>
       (build_url bp_endpoint bp_api_params)
     = Inr \<lparr>status_code = 404, json_value = Some (PList [])\<rparr>
   \<and> fetch (always \<lparr>status_code = 404, json_value = Some (PList [])\<rparr>) bp_endpoint bp_api_params
     = Inr (PList [])
   \<and> fetch (always \<lparr>status_code = 200, json_value = Some (PList [])\<rparr>) bp_endpoint bp_api_params
     = Inr (PList [])
   \<and> fetch (always \<lparr>status_code = 404, json_value = None\<rparr>) bp_endpoint bp_api_params
     = Inl JSONDecodeError
   \<and> fetch (always \<lparr>status_code = 200, json_value = None\<rparr>) bp_endpoint bp_api_params
     = Inl JSONDecodeError
   \<and> fst (run_all no_repr (always \<lparr>status_code = 404, json_value = Some (PList [])\<rparr>)
        bp_endpoint bp_api_params bp_projection fresh) = None
   \<and> (\<exists>rest. disk (csv_outfile (snd (run_all no_repr
          (always \<lparr>status_code = 404, json_value = Some (PList [])\<rparr>)
          bp_endpoint bp_api_params bp_projection fresh)))
        = Some (row_text (map fst bp_projection) @ rest))"
proof -
  have s: "fst (save_to_csv no_repr bp_projection (fresh\<lparr>bp_data := PList []\<rparr>)) = None"
    by (simp add: save_to_csv_def with_body_def)
  show ?thesis
    using s status_not_examined
      [of "always \<lparr>status_code = 404, json_value = Some (PList [])\<rparr>" bp_endpoint bp_api_params
        "\<lparr>status_code = 404, json_value = Some (PList [])\<rparr>" 200 no_repr bp_projection fresh]
      status_not_examined
      [of "always \<lparr>status_code = 404, json_value = None\<rparr>" bp_endpoint bp_api_params
        "\<lparr>status_code = 404, json_value = None\<rparr>" 200 no_repr bp_projection fresh]
    by (simp add: always_def)
qed

text \<open>C3 fails as stated: for a 404 response whose body is the empty JSON array the
  fetcher returns the empty result set, and the run completes with the output file
  created and holding the header row.\<close>

theorem not_found_counterexample:
  "fetch (always \<lparr>status_code = 404, json_value = Some (PList [])\<rparr>) bp_endpoint bp_api_params
     = Inr (PList [])
   \<and> run_all no_repr (always \<lparr>status_code = 404, json_value = Some (PList [])\<rparr>)
        bp_endpoint bp_api_params bp_projection fresh
     = (None,
        \<lparr>bp_data = PList [],
         csv_outfile =
           \<lparr>disk = Some (''permit number,description,building type,completed date'' @ [CR, LF]),
            buffer = [], is_open = False\<rparr>\<rparr>)"
  by (simp add: fetch_def always_def json_def run_all_def query_cell_def)
    (simp add: bp_projection_def fresh_def save_to_csv_def
      with_body_def open_w_def close_def writerow_def write_text_def row_text_def
      quote_field_def special_def)

text \<open>
  C7, as amended. A body that is not valid JSON makes the fetcher fail with the JSON
  decode error. A body that is valid JSON is returned as decoded whatever its shape: an
  object, a string, a number or an array of anything is bound to \<^verbatim>\<open>bp_data\<close> with no
  error of the fetcher.
\<close>

theorem decode_error_only_for_invalid_json:
  assumes "http (build_url endpoint params) = Inr r"
  shows "(json_value r = None \<longrightarrow> fetch http endpoint params = Inl JSONDecodeError)
         \<and> (\<forall>v. json_value r = Some v \<longrightarrow> fetch http endpoint params = Inr v)"
  using assms by (simp add: fetch_def json_def)

text \<open>The theorem at a body that is not JSON and at a body that is a JSON string.\<close>

theorem decode_error_only_for_invalid_json_witness:
  "fetch (always \<lparr>status_code = 200, json_value = None\<rparr>) bp_endpoint bp_api_params
     = Inl JSONDecodeError
   \<and> fetch (always \<lparr>status_code = 200, json_value = Some (PStr ''not found'')\<rparr>)
        bp_endpoint bp_api_params
     = Inr (PStr ''not found'')"
  using decode_error_only_for_invalid_json
    [of "always \<lparr>status_code = 200, json_value = None\<rparr>" bp_endpoint bp_api_params
        "\<lparr>status_code = 200, json_value = None\<rparr>"]
    decode_error_only_for_invalid_json
    [of "always \<lparr>status_code = 200, json_value = Some (PStr ''not found'')\<rparr>"
        bp_endpoint bp_api_params
        "\<lparr>status_code = 200, json_value = Some (PStr ''not found'')\<rparr>"]
  by (simp add: always_def)

text \<open>C7 fails as stated: a body that is a JSON object, not an array of objects, is
  returned by the fetcher, with no decode error.\<close>

theorem not_an_array_counterexample:
  "fetch (always \<lparr>status_code = 200,
                  json_value = Some (PDict [(''error'', PBool True), (''message'', PStr ''x'')])\<rparr>)
     bp_endpoint bp_api_params
   = Inr (PDict [(''error'', PBool True), (''message'', PStr ''x'')])"
  by (simp add: fetch_def always_def json_def)

subsection \<open>The file handle and the result set\<close>

text \<open>
  C9. On every exit of the CSV cell, whether the body of the \<^verbatim>\<open>with\<close> statement
  completed or raised (the outcome is not a hypothesis of the statement), the handle is
  closed, nothing is left in its buffer, and the file holds exactly what the body wrote.
  Failures of the operating system while writing are not part of the model.
\<close>

theorem handle_released:
  "is_open (csv_outfile (snd (save_to_csv repr proj nb))) = False
   \<and> buffer (csv_outfile (snd (save_to_csv repr proj nb))) = []
   \<and> disk (csv_outfile (snd (save_to_csv repr proj nb))) =
       Some (buffer (snd (with_body repr proj (bp_data nb) (open_w (csv_outfile nb)))))"
proof -
  obtain r f where b: "with_body repr proj (bp_data nb) (open_w (csv_outfile nb)) = (r, f)"
    by (cases "with_body repr proj (bp_data nb) (open_w (csv_outfile nb))")
  have "disk f = Some []"
    using with_body_frame [of repr proj "bp_data nb" "open_w (csv_outfile nb)"] b
    by (simp add: open_w_def)
  with b show ?thesis
    by (simp add: save_to_csv_def close_def)
qed

text \<open>An exit by exception: at the record without \<^verbatim>\<open>Description\<close> the cell raises,
  and the handle is closed with the header row flushed to the file.\<close>

lemma handle_released_after_error:
  "save_to_csv no_repr [(''description'', ''Description'')]
     (fresh\<lparr>bp_data := PList [PDict [(''PermitNum'', PStr ''A2'')]]\<rparr>)
   = (Some (KeyError ''Description''),
      \<lparr>bp_data = PList [PDict [(''PermitNum'', PStr ''A2'')]],
       csv_outfile = \<lparr>disk = Some (''description'' @ [CR, LF]), buffer = [], is_open = False\<rparr>\<rparr>)"
  by (simp add: save_to_csv_def with_body_def fresh_def open_w_def close_def writerow_def
      write_text_def row_text_def quote_field_def special_def)

text \<open>
  C10. The CSV cell leaves \<^verbatim>\<open>bp_data\<close> as it found it, whether it completes or
  raises: the loop only reads the records. The state after the cell differs from the
  state before it in the output file only.
\<close>

theorem bp_data_unchanged:
  "bp_data (snd (save_to_csv repr proj nb)) = bp_data nb
   \<and> snd (save_to_csv repr proj nb)
       = nb\<lparr>csv_outfile := csv_outfile (snd (save_to_csv repr proj nb))\<rparr>"
  by (simp add: save_to_csv_def split: prod.splits)

subsection \<open>Encoding and decoding the query\<close>

declare unquote_plus.simps(2) [simp del]

lemma hex_val_hex_digit: "d < 16 \<Longrightarrow> hex_val (hex_digit d) = Some d"
  by (auto simp: hex_val_def hex_digit_def Let_def)

lemma hex_digit_range:
  "d < 16 \<Longrightarrow> (48 \<le> (of_char (hex_digit d) :: nat) \<and> (of_char (hex_digit d) :: nat) \<le> 57)
     \<or> (65 \<le> (of_char (hex_digit d) :: nat) \<and> (of_char (hex_digit d) :: nat) \<le> 70)"
  by (auto simp: hex_digit_def)

lemma of_char_less_256: "(of_char c :: nat) < 256"
  by (cases c) simp

lemma unquote_percent: "unquote_plus (percent c @ rest) = c # unquote_plus rest"
proof -
  let ?n = "of_char c :: nat"
  have "?n div 16 < 16"
    by (rule less_mult_imp_div_less) (use of_char_less_256 [of c] in simp)
  moreover have "?n mod 16 < 16" by simp
  ultimately show ?thesis
    by (simp add: percent_def Let_def unquote_plus.simps(2) hex_val_hex_digit)
qed

lemma unreserved_plain: "unreserved c \<Longrightarrow> c \<noteq> CHR ''+'' \<and> c \<noteq> CHR ''%'' \<and> c \<noteq> CHR ''&'' \<and> c \<noteq> CHR ''='' \<and> c \<noteq> CHR ''?''"
  by (auto simp: unreserved_def Let_def)

lemma unquote_quote: "unquote_plus (quote_plus s) = s"
proof (induction s)
  case Nil
  show ?case by simp
next
  case (Cons c s)
  show ?case
  proof (cases "c = CHR '' ''")
    case True
    then show ?thesis using Cons by (simp add: unquote_plus.simps(2))
  next
    case False
    show ?thesis
    proof (cases "unreserved c")
      case True
      with False Cons unreserved_plain [of c] show ?thesis
        by (simp add: unquote_plus.simps(2))
    next
      case u: False
      with False Cons show ?thesis
        by (simp add: unquote_percent)
    qed
  qed
qed

lemma hex_digit_safe: "d < 16 \<Longrightarrow> unreserved (hex_digit d)"
  using hex_digit_range [of d] by (auto simp: unreserved_def Let_def)

lemma percent_safe: "list_all url_safe (percent c)"
proof -
  let ?n = "of_char c :: nat"
  have "?n div 16 < 16"
    by (rule less_mult_imp_div_less) (use of_char_less_256 [of c] in simp)
  moreover have "?n mod 16 < 16" by simp
  ultimately show ?thesis
    by (simp add: percent_def Let_def url_safe_def hex_digit_safe)
qed

lemma quote_plus_safe: "list_all url_safe (quote_plus s)"
proof (induction s)
  case Nil
  show ?case by simp
next
  case (Cons c s)
  have "url_safe (CHR ''+'')" by (simp add: url_safe_def)
  moreover have "unreserved c \<Longrightarrow> url_safe c" by (simp add: url_safe_def)
  ultimately show ?case
    using Cons percent_safe [of c] by simp
qed

lemma url_safe_plain: "url_safe c \<Longrightarrow> c \<noteq> CHR ''&'' \<and> c \<noteq> CHR ''='' \<and> c \<noteq> CHR ''?''"
  using unreserved_plain [of c] by (auto simp: url_safe_def)

lemma quote_plus_no: "CHR ''&'' \<notin> set (quote_plus s) \<and> CHR ''='' \<notin> set (quote_plus s)"
  using quote_plus_safe [of s] url_safe_plain by (auto simp: list_all_iff)

lemma split_on_nonempty: "split_on sep s \<noteq> []"
  by (induction s) (auto split: list.splits)

lemma split_on_plain: "sep \<notin> set s \<Longrightarrow> split_on sep s = [s]"
  by (induction s) auto

lemma split_on_append: "split_on sep (a @ sep # b) = split_on sep a @ split_on sep b"
proof (induction a)
  case Nil
  show ?case by simp
next
  case (Cons c a)
  obtain p ps where "split_on sep a = p # ps"
    using split_on_nonempty [of sep a] by (cases "split_on sep a") auto
  with Cons show ?case by simp
qed

lemma encode_pair_no_amp: "CHR ''&'' \<notin> set (encode_pair kv)"
  using quote_plus_no [of "fst kv"] quote_plus_no [of "snd kv"] by (simp add: encode_pair_def)

lemma parse_encode_pair: "parse_pair (encode_pair kv) = kv"
proof -
  have "takeWhile (\<lambda>c. c \<noteq> CHR ''='') (encode_pair kv) = quote_plus (fst kv)"
    unfolding encode_pair_def using quote_plus_no [of "fst kv"]
    by (auto simp: takeWhile_tail)
  moreover have "dropWhile (\<lambda>c. c \<noteq> CHR ''='') (encode_pair kv) = CHR ''='' # quote_plus (snd kv)"
    unfolding encode_pair_def using quote_plus_no [of "fst kv"]
    by (auto simp: dropWhile_append3)
  ultimately show ?thesis
    by (simp add: parse_pair_def unquote_quote)
qed

lemma split_join_amp:
  "split_on (CHR ''&'') (join_amp (map encode_pair (kv # kvs))) = map encode_pair (kv # kvs)"
proof (induction kvs arbitrary: kv)
  case Nil
  show ?case by (simp add: split_on_plain encode_pair_no_amp)
next
  case (Cons kv2 kvs)
  have "split_on (CHR ''&'') (encode_pair kv @ CHR ''&'' # join_amp (map encode_pair (kv2 # kvs)))
      = split_on (CHR ''&'') (encode_pair kv) @ split_on (CHR ''&'') (join_amp (map encode_pair (kv2 # kvs)))"
    by (rule split_on_append)
  then show ?case
    using Cons [of kv2] by (simp add: split_on_plain encode_pair_no_amp)
qed

lemma urlencode_pairs: "urlencode params = join_amp (map encode_pair params)"
  by (simp add: urlencode_def encode_pair_def [abs_def])

lemma encode_pair_nonempty: "encode_pair kv \<noteq> []"
  by (simp add: encode_pair_def)

lemma parse_urlencode: "parse_qsl (urlencode params) = params"
proof (cases params)
  case Nil
  then show ?thesis by (simp add: parse_qsl_def urlencode_def)
next
  case (Cons kv kvs)
  have "filter (\<lambda>piece. piece \<noteq> []) (map encode_pair params) = map encode_pair params"
    by (simp add: filter_map comp_def encode_pair_nonempty)
  then show ?thesis
    using Cons split_join_amp [of kv kvs]
    by (simp add: parse_qsl_def urlencode_pairs comp_def parse_encode_pair del: join_amp.simps map_eq_conv)
qed

lemma parse_qsl_append: "parse_qsl (a @ CHR ''&'' # b) = parse_qsl a @ parse_qsl b"
  by (simp add: parse_qsl_def split_on_append)

lemma parse_qsl_empty: "parse_qsl [] = []"
  by (simp add: parse_qsl_def)

lemma query_of_build: "query_of (takeWhile (\<lambda>c. c \<noteq> CHR ''?'') e @ CHR ''?'' # q) = q"
proof -
  have "dropWhile (\<lambda>c. c \<noteq> CHR ''?'') (takeWhile (\<lambda>c. c \<noteq> CHR ''?'') e @ CHR ''?'' # q) = CHR ''?'' # q"
    by (induction e) auto
  then show ?thesis by (simp add: query_of_def)
qed

lemma query_of_base: "query_of (takeWhile (\<lambda>c. c \<noteq> CHR ''?'') e) = []"
proof -
  have h: "dropWhile (\<lambda>c. c \<noteq> CHR ''?'') (takeWhile (\<lambda>c. c \<noteq> CHR ''?'') e) = []"
    by (induction e) auto
  show ?thesis unfolding query_of_def h by simp
qed

lemma build_url_query:
  "parse_qsl (query_of (build_url endpoint params)) = parse_qsl (query_of endpoint) @ params"
proof -
  let ?q = "query_of endpoint" and ?enc = "urlencode params"
  show ?thesis
  proof (cases "?enc = []")
    case True
    then have "params = []" using parse_urlencode [of params] by (simp add: parse_qsl_empty)
    with True show ?thesis
      by (simp add: build_url_def Let_def query_of_build query_of_base parse_qsl_empty)
  next
    case False
    then show ?thesis
      by (simp add: build_url_def Let_def query_of_build parse_qsl_append parse_urlencode parse_qsl_empty)
  qed
qed

lemma url_safe_escaped:
  "url_safe c \<Longrightarrow>
     c \<noteq> CHR '' '' \<and> c \<noteq> CHR 0x27 \<and> c \<noteq> DQUOTE \<and> c \<noteq> CHR ''('' \<and> c \<noteq> CHR '')'' \<and> c \<noteq> COMMA"
  by (auto simp: url_safe_def unreserved_def Let_def)

lemma quote_plus_escapes:
  "CHR '' '' \<notin> set (quote_plus s) \<and> CHR 0x27 \<notin> set (quote_plus s) \<and> DQUOTE \<notin> set (quote_plus s)
   \<and> CHR ''('' \<notin> set (quote_plus s) \<and> CHR '')'' \<notin> set (quote_plus s) \<and> COMMA \<notin> set (quote_plus s)"
  using quote_plus_safe [of s] url_safe_escaped by (auto simp: list_all_iff)

text \<open>The URLs of the two query cells, as the notebook printed them.\<close>

lemma test_request_url:
  "test_url =
     ''https://data.seattle.gov/resource/76t5-zqzr.json?$where=(PermitNum='' @ [CHR 0x27]
       @ ''6531736-PH'' @ [CHR 0x27] @ '')''
   \<and> parse_qsl (query_of test_url) =
       [(''$where'', ''(PermitNum='' @ [CHR 0x27] @ ''6531736-PH'' @ [CHR 0x27] @ '')'')]"
  by (simp add: test_url_def test_endpoint_def test_params_def) code_simp

lemma bp_request_url:
  "build_url bp_endpoint bp_api_params =
     ''https://data.seattle.gov/resource/76t5-zqzr.json?%24select=PermitNum%2C+PermitClass%2C+CompletedDate%2C+Description&%24where=%28PermitClass%3D%27Multifamily%27+OR+PermitClass%3D%27Single+Family%2FDuplex%27%29+AND+PermitTypeDesc%3D%27New%27+AND+CompletedDate+%3E+%272006-01-01%27&%24order=CompletedDate+DESC&%24limit=1000''"
  by code_simp

subsection \<open>Reading a written row back\<close>

lemma splitlines_Cons_nonempty: "splitlines (c # cs) \<noteq> []"
  by (auto split: list.splits)

lemma mid_Cons: "mid p (c # cs) = read_lines p (splitlines (c # cs))"
  using splitlines_Cons_nonempty [of c cs]
  by (cases "splitlines (c # cs)") (simp_all add: mid_def)

lemma mid_step:
  "\<not> line_end c cs \<Longrightarrow>
     mid p (c # cs) =
       (case parse_process_char p (Some c) of None \<Rightarrow> None | Some p1 \<Rightarrow> mid p1 cs)"
  by (cases "splitlines cs") (auto simp: mid_def split: option.splits)

lemma mid_line_end:
  "line_end c cs \<Longrightarrow>
     mid p (c # cs) =
       (case parse_process_char p (Some c) of
          None \<Rightarrow> None
        | Some p1 \<Rightarrow>
            (case parse_process_char p1 None of
               None \<Rightarrow> None
             | Some p2 \<Rightarrow>
                 if state p2 = START_RECORD
                 then map_option (\<lambda>rows. saved_fields p2 # rows)
                        (read_lines parse_reset (splitlines cs))
                 else read_lines p2 (splitlines cs)))"
  by (auto simp: mid_def split: option.splits)

lemma step_quoted:
  "state p = IN_QUOTED_FIELD \<Longrightarrow> c \<noteq> DQUOTE \<Longrightarrow>
     parse_process_char p (Some c) = Some (parse_add_char c p)"
  by (simp add: parse_process_char_def)

lemma step_quoted_eol:
  "state p = IN_QUOTED_FIELD \<Longrightarrow> parse_process_char p None = Some p"
  by (simp add: parse_process_char_def)

lemma quoted_lines:
  "state p = IN_QUOTED_FIELD \<Longrightarrow> read_lines p (splitlines cs) = mid p cs"
  by (cases cs) (simp_all add: mid_def step_quoted_eol mid_Cons [unfolded mid_def] split: list.splits)

lemma mid_quoted_char:
  assumes "state p = IN_QUOTED_FIELD" "c \<noteq> DQUOTE"
  shows "mid p (c # cs) = mid (parse_add_char c p) cs"
proof (cases "line_end c cs")
  case True
  have s: "state (parse_add_char c p) = IN_QUOTED_FIELD"
    using assms by (simp add: parse_add_char_def)
  show ?thesis
    using True assms s
    by (simp add: mid_line_end step_quoted step_quoted_eol quoted_lines)
next
  case False
  then show ?thesis
    using assms by (simp add: mid_step step_quoted)
qed

lemma mid_escape:
  "state p = IN_QUOTED_FIELD \<Longrightarrow>
     mid p (escape s @ DQUOTE # rest) =
       mid (p\<lparr>field := field p @ s, state := QUOTE_IN_QUOTED_FIELD\<rparr>) rest"
proof (induction s arbitrary: p)
  case Nil
  then show ?case
    by (simp add: mid_step line_end_def parse_process_char_def)
next
  case (Cons c s)
  show ?case
  proof (cases "c = DQUOTE")
    case True
    have 1: "mid p (DQUOTE # DQUOTE # escape s @ DQUOTE # rest)
        = mid (p\<lparr>state := QUOTE_IN_QUOTED_FIELD\<rparr>) (DQUOTE # escape s @ DQUOTE # rest)"
      using Cons.prems by (simp add: mid_step line_end_def parse_process_char_def)
    have 2: "mid (p\<lparr>state := QUOTE_IN_QUOTED_FIELD\<rparr>) (DQUOTE # escape s @ DQUOTE # rest)
        = mid (p\<lparr>field := field p @ [DQUOTE], state := IN_QUOTED_FIELD\<rparr>) (escape s @ DQUOTE # rest)"
      by (simp add: mid_step line_end_def parse_process_char_def parse_add_char_def)
    show ?thesis
      using True 1 2 Cons.IH [of "p\<lparr>field := field p @ [DQUOTE], state := IN_QUOTED_FIELD\<rparr>"]
      by simp
  next
    case False
    have "state (parse_add_char c p) = IN_QUOTED_FIELD"
      using Cons.prems by (simp add: parse_add_char_def)
    from Cons.IH [OF this] False Cons.prems show ?thesis
      by (simp add: mid_quoted_char parse_add_char_def)
  qed
qed


lemma not_special_plain:
  "\<not> special c \<Longrightarrow> c \<noteq> COMMA \<and> c \<noteq> DQUOTE \<and> c \<noteq> CR \<and> c \<noteq> LF"
  by (simp add: special_def)

lemma mid_in_field:
  "state p = IN_FIELD \<Longrightarrow> \<not> list_ex special s \<Longrightarrow>
     mid p (s @ rest) = mid (p\<lparr>field := field p @ s\<rparr>) rest"
proof (induction s arbitrary: p)
  case Nil
  show ?case by simp
next
  case (Cons c s)
  then have c: "c \<noteq> COMMA" "c \<noteq> DQUOTE" "c \<noteq> CR" "c \<noteq> LF" and s: "\<not> list_ex special s"
    using not_special_plain [of c] by simp_all
  have "mid p (c # s @ rest) = mid (parse_add_char c p) (s @ rest)"
    using Cons.prems(1) c by (simp add: mid_step line_end_def parse_process_char_def)
  moreover have "state (parse_add_char c p) = IN_FIELD"
    using Cons.prems(1) by (simp add: parse_add_char_def)
  ultimately show ?case
    using Cons.IH [of "parse_add_char c p"] s by (simp add: parse_add_char_def)
qed

lemma update_order:
  "p\<lparr>state := a, field := b\<rparr> = p\<lparr>field := b, state := a\<rparr>"
  by (cases p) simp

lemma mid_quote_field:
  assumes "state p = START_FIELD" "field p = []"
  shows "mid p (quote_field s @ rest) = mid (after_field p s) rest"
proof (cases "list_ex special s")
  case True
  have "mid p (DQUOTE # escape s @ DQUOTE # rest)
      = mid (p\<lparr>state := IN_QUOTED_FIELD\<rparr>) (escape s @ DQUOTE # rest)"
    using assms by (simp add: mid_step line_end_def parse_process_char_def start_field_def)
  then show ?thesis
    using True assms mid_escape [of "p\<lparr>state := IN_QUOTED_FIELD\<rparr>" s rest]
    by (simp add: quote_field_def after_field_def)
next
  case False
  show ?thesis
  proof (cases s)
    case Nil
    then show ?thesis by (simp add: quote_field_def after_field_def)
  next
    case (Cons c cs)
    with False have c: "c \<noteq> COMMA" "c \<noteq> DQUOTE" "c \<noteq> CR" "c \<noteq> LF"
      and cs: "\<not> list_ex special cs"
      using not_special_plain [of c] by simp_all
    have "mid p (c # cs @ rest) = mid (p\<lparr>field := [c], state := IN_FIELD\<rparr>) (cs @ rest)"
      using assms c
      by (simp add: mid_step line_end_def parse_process_char_def start_field_def parse_add_char_def)
    then show ?thesis
      using False Cons cs mid_in_field [of "p\<lparr>field := [c], state := IN_FIELD\<rparr>" cs rest]
      by (simp add: quote_field_def after_field_def update_order)
  qed
qed

lemma after_field_state:
  "state p = START_FIELD \<Longrightarrow>
     state (after_field p s) \<in> {START_FIELD, IN_FIELD, QUOTE_IN_QUOTED_FIELD}"
  by (simp add: after_field_def)

lemma after_field_field:
  "field p = [] \<Longrightarrow> field (after_field p s) = s
     \<and> saved_fields (after_field p s) = saved_fields p"
  by (simp add: after_field_def)

lemma mid_comma:
  assumes "state p \<in> {START_FIELD, IN_FIELD, QUOTE_IN_QUOTED_FIELD}"
  shows "mid p (COMMA # cs) = mid ((parse_save_field p)\<lparr>state := START_FIELD\<rparr>) cs"
  using assms
  by (auto simp: mid_step line_end_def parse_process_char_def start_field_def)

lemma mid_terminator:
  assumes "state p \<in> {START_FIELD, IN_FIELD, QUOTE_IN_QUOTED_FIELD}"
  shows "mid p (CR # LF # rest) =
           map_option (\<lambda>rows. (saved_fields p @ [field p]) # rows)
             (read_lines parse_reset (splitlines rest))"
proof -
  have 1: "mid p (CR # LF # rest) = mid ((parse_save_field p)\<lparr>state := EAT_CRNL\<rparr>) (LF # rest)"
    using assms
    by (auto simp: mid_step line_end_def parse_process_char_def start_field_def)
  show ?thesis
    unfolding 1
    by (simp add: mid_line_end line_end_def parse_process_char_def parse_save_field_def)
qed

lemma mid_join:
  "fl \<noteq> [] \<Longrightarrow> state p = START_FIELD \<Longrightarrow> field p = [] \<Longrightarrow>
     mid p (join (map quote_field fl) @ CR # LF # rest) =
       map_option (\<lambda>rows. (saved_fields p @ fl) # rows)
         (read_lines parse_reset (splitlines rest))"
proof (induction fl arbitrary: p rule: join.induct)
  case 1
  then show ?case by simp
next
  case (2 f)
  then show ?case
    using mid_quote_field [of p f "CR # LF # rest"]
      mid_terminator [of "after_field p f" rest] after_field_state [of p f]
      after_field_field [of p f]
    by simp
next
  case (3 f g fs)
  let ?q = "(parse_save_field (after_field p f))\<lparr>state := START_FIELD\<rparr>"
  have q: "state ?q = START_FIELD" "field ?q = []" "saved_fields ?q = saved_fields p @ [f]"
    using after_field_field [of p f] "3.prems" by (simp_all add: parse_save_field_def)
  have "mid p (join (map quote_field (f # g # fs)) @ CR # LF # rest)
      = mid (after_field p f) (COMMA # join (map quote_field (g # fs)) @ CR # LF # rest)"
    using mid_quote_field [of p f "COMMA # join (map quote_field (g # fs)) @ CR # LF # rest"] "3.prems"
    by simp
  also have "\<dots> = mid ?q (join (map quote_field (g # fs)) @ CR # LF # rest)"
    using mid_comma [of "after_field p f"] after_field_state [of p f] "3.prems" by simp
  also have "\<dots> = map_option (\<lambda>rows. (saved_fields ?q @ g # fs) # rows)
         (read_lines parse_reset (splitlines rest))"
    using "3.IH" [of ?q] q by simp
  finally show ?case using q by simp
qed


declare splitlines.simps [simp del]

lemma mid_start_record:
  assumes "c \<noteq> CR" "c \<noteq> LF"
  shows "mid parse_reset (c # cs) = mid (parse_reset\<lparr>state := START_FIELD\<rparr>) (c # cs)"
proof -
  have "\<not> line_end c cs" using assms by (simp add: line_end_def)
  moreover have "parse_process_char parse_reset (Some c)
      = parse_process_char (parse_reset\<lparr>state := START_FIELD\<rparr>) (Some c)"
    using assms
    by (simp add: parse_process_char_def parse_reset_def start_field_def parse_save_field_def
        parse_add_char_def)
  ultimately show ?thesis by (simp add: mid_step)
qed

lemma quote_field_first:
  "quote_field f = c # cs \<Longrightarrow> c \<noteq> CR \<and> c \<noteq> LF"
  by (cases f) (auto simp: quote_field_def special_def split: if_splits)

lemma quote_field_empty: "quote_field f = [] \<Longrightarrow> f = []"
  by (auto simp: quote_field_def split: if_splits)

lemma join_first:
  "join (map quote_field fl) = c # cs \<Longrightarrow> c \<noteq> CR \<and> c \<noteq> LF"
proof (induction fl rule: join.induct)
  case 1
  then show ?case by simp
next
  case (2 f)
  then show ?case using quote_field_first [of f c cs] by simp
next
  case (3 f g fs)
  show ?case
  proof (cases "quote_field f")
    case Nil
    with "3.prems" show ?thesis by auto
  next
    case (Cons d ds)
    with "3.prems" have "d = c" by simp
    with Cons quote_field_first [of f d ds] show ?thesis by simp
  qed
qed

lemma join_empty:
  "join (map quote_field fl) = [] \<Longrightarrow> fl \<noteq> [] \<Longrightarrow> fl = [[]]"
  by (induction fl rule: join.induct) (auto dest: quote_field_empty)

lemma read_empty_field_row:
  "read_lines parse_reset (splitlines (DQUOTE # DQUOTE # CR # LF # rest)) =
     map_option (\<lambda>rows. [[]] # rows) (read_lines parse_reset (splitlines rest))"
proof -
  have "mid parse_reset (DQUOTE # DQUOTE # CR # LF # rest)
      = mid (parse_reset\<lparr>state := IN_QUOTED_FIELD\<rparr>) (DQUOTE # CR # LF # rest)"
    by (simp add: mid_step line_end_def parse_process_char_def start_field_def parse_reset_def)
  also have "\<dots> = mid (parse_reset\<lparr>state := QUOTE_IN_QUOTED_FIELD\<rparr>) (CR # LF # rest)"
    by (simp add: mid_step line_end_def parse_process_char_def parse_reset_def)
  also have "\<dots> = map_option (\<lambda>rows. [[]] # rows) (read_lines parse_reset (splitlines rest))"
    using mid_terminator [of "parse_reset\<lparr>state := QUOTE_IN_QUOTED_FIELD\<rparr>" rest]
    by (simp add: parse_reset_def)
  finally show ?thesis unfolding mid_Cons .
qed

lemma read_no_field_row:
  "read_lines parse_reset (splitlines (CR # LF # rest)) =
     map_option (\<lambda>rows. [] # rows) (read_lines parse_reset (splitlines rest))"
proof -
  have "mid parse_reset (CR # LF # rest) = mid (parse_reset\<lparr>state := EAT_CRNL\<rparr>) (LF # rest)"
    by (simp add: mid_step line_end_def parse_process_char_def parse_reset_def)
  also have "\<dots> = map_option (\<lambda>rows. [] # rows) (read_lines parse_reset (splitlines rest))"
    by (simp add: mid_line_end line_end_def parse_process_char_def parse_reset_def)
  finally show ?thesis unfolding mid_Cons .
qed

lemma read_row:
  "read_lines parse_reset (splitlines (row_text fl @ rest)) =
     map_option (\<lambda>rows. fl # rows) (read_lines parse_reset (splitlines rest))"
proof (cases "fl = []")
  case True
  then show ?thesis by (simp add: row_text_def read_no_field_row)
next
  case False
  show ?thesis
  proof (cases "join (map quote_field fl)")
    case Nil
    with False have "fl = [[]]" by (simp add: join_empty)
    with Nil show ?thesis by (simp add: row_text_def read_empty_field_row)
  next
    case (Cons c cs)
    then have c: "c \<noteq> CR" "c \<noteq> LF" using join_first [of fl c cs] by simp_all
    have "read_lines parse_reset (splitlines (row_text fl @ rest))
        = mid parse_reset (c # cs @ CR # LF # rest)"
      using Cons by (simp add: row_text_def mid_Cons)
    also have "\<dots> = mid (parse_reset\<lparr>state := START_FIELD\<rparr>) (c # cs @ CR # LF # rest)"
      using c by (rule mid_start_record)
    also have "\<dots> = mid (parse_reset\<lparr>state := START_FIELD\<rparr>)
        (join (map quote_field fl) @ CR # LF # rest)"
      using Cons by simp
    also have "\<dots> = map_option (\<lambda>rows. fl # rows) (read_lines parse_reset (splitlines rest))"
      using mid_join [of fl "parse_reset\<lparr>state := START_FIELD\<rparr>" rest] False
      by (simp add: parse_reset_def)
    finally show ?thesis .
  qed
qed

lemma read_rows:
  "csv_reader (concat (map row_text rows)) = Some rows"
proof (induction rows)
  case Nil
  show ?case by (simp add: csv_reader_def parse_reset_def splitlines.simps)
next
  case (Cons fl rows)
  then show ?case by (simp add: csv_reader_def read_row)
qed

subsection \<open>Lines of the written file\<close>

lemma splitlines_line:
  "\<not> has_newline s \<Longrightarrow> splitlines (s @ CR # LF # rest) = (s @ [CR, LF]) # splitlines rest"
proof (induction s)
  case Nil
  show ?case by (simp add: splitlines.simps line_end_def)
next
  case (Cons c s)
  then have "c \<noteq> CR" "c \<noteq> LF" "\<not> has_newline s"
    by (simp_all add: has_newline_def)
  with Cons.IH show ?case
    by (simp add: splitlines.simps line_end_def)
qed

lemma escape_newline: "has_newline (escape s) = has_newline s"
  by (induction s) (auto simp: has_newline_def)

lemma quote_field_newline: "\<not> has_newline f \<Longrightarrow> \<not> has_newline (quote_field f)"
  using escape_newline [of f] by (simp add: quote_field_def has_newline_def)

lemma join_newline:
  "list_all (\<lambda>f. \<not> has_newline f) fl \<Longrightarrow> \<not> has_newline (join (map quote_field fl))"
proof (induction fl rule: join.induct)
  case 1
  show ?case by (simp add: has_newline_def)
next
  case (2 f)
  then show ?case by (simp add: quote_field_newline)
next
  case (3 f g fs)
  then have "\<not> has_newline (quote_field f)" "\<not> has_newline (join (map quote_field (g # fs)))"
    by (simp_all add: quote_field_newline)
  then show ?case by (simp add: has_newline_def)
qed

lemma row_text_line:
  assumes "list_all (\<lambda>f. \<not> has_newline f) fl"
  shows "length (splitlines (row_text fl @ rest)) = Suc (length (splitlines rest))"
proof -
  obtain body where b: "row_text fl = body @ [CR, LF]" "\<not> has_newline body"
    using join_newline [OF assms] by (auto simp: row_text_def Let_def has_newline_def)
  then show ?thesis
    using splitlines_line [of body rest] by simp
qed

lemma csv_text_lines:
  "list_all (list_all (\<lambda>f. \<not> has_newline f)) rows \<Longrightarrow>
     length (splitlines (csv_text rows)) = length rows"
  by (induction rows) (simp_all add: csv_text_def row_text_line splitlines.simps)

lemma takeWhile_all: "list_all P xs \<Longrightarrow> takeWhile P xs = xs"
  by (induction xs) auto

lemma missing_none: "list_all (complete keys) rs \<Longrightarrow> missing_fields keys rs = []"
  by (induction rs) (auto simp: missing_fields_def complete_filter)

subsection \<open>The claims about the written file\<close>

text \<open>
  C4, as amended. For a result set of N records that all have every requested field,
  the export completes and writes exactly N + 1 rows, the header row and one row per
  record in order, each ended by CR LF; a CSV reader gets exactly these N + 1 rows back.
  They are exactly N + 1 lines of the file when no column title and no exported value
  contains CR or LF: a value with a line break in it is written in quotes with the line
  break kept, and its row takes more than one line. For N = 0 the file is the header
  row alone.
\<close>

theorem rows_and_lines:
  assumes "list_all (complete (map snd proj)) rs"
  shows "fst (save_to_csv repr proj (nb\<lparr>bp_data := PList (map PDict rs)\<rparr>)) = None
     \<and> disk (csv_outfile (snd (save_to_csv repr proj (nb\<lparr>bp_data := PList (map PDict rs)\<rparr>))))
         = Some (csv_text (written_rows repr proj rs))
     \<and> csv_reader (csv_text (written_rows repr proj rs)) = Some (written_rows repr proj rs)
     \<and> length (written_rows repr proj rs) = length rs + 1
     \<and> (list_all (list_all (\<lambda>f. \<not> has_newline f)) (written_rows repr proj rs) \<longrightarrow>
           length (splitlines (csv_text (written_rows repr proj rs))) = length rs + 1)"
proof (intro conjI impI)
  show "fst (save_to_csv repr proj (nb\<lparr>bp_data := PList (map PDict rs)\<rparr>)) = None"
    using assms by (simp add: save_to_csv_records first_error_def missing_none)
  show "disk (csv_outfile (snd (save_to_csv repr proj (nb\<lparr>bp_data := PList (map PDict rs)\<rparr>))))
         = Some (csv_text (written_rows repr proj rs))"
    using assms by (simp add: save_to_csv_records csv_text_def written_rows_def takeWhile_all)
  show "csv_reader (csv_text (written_rows repr proj rs)) = Some (written_rows repr proj rs)"
    by (simp add: csv_text_def read_rows)
  show "length (written_rows repr proj rs) = length rs + 1"
    by (simp add: written_rows_def)
next
  assume "list_all (list_all (\<lambda>f. \<not> has_newline f)) (written_rows repr proj rs)"
  then have "length (splitlines (csv_text (written_rows repr proj rs)))
      = length (written_rows repr proj rs)"
    by (rule csv_text_lines)
  then show "length (splitlines (csv_text (written_rows repr proj rs))) = length rs + 1"
    by (simp add: written_rows_def)
qed


text \<open>The theorem at one complete record of the scenario.\<close>

theorem rows_and_lines_witness:
  "list_all (complete (map snd scenario_projection))
     [[(''PermitNum'', PStr ''A1''), (''Description'', PStr ''x'')]]
   \<and> list_all (list_all (\<lambda>f. \<not> has_newline f))
       (written_rows no_repr scenario_projection
          [[(''PermitNum'', PStr ''A1''), (''Description'', PStr ''x'')]])
   \<and> fst (save_to_csv no_repr scenario_projection
        (fresh\<lparr>bp_data := PList (map PDict [[(''PermitNum'', PStr ''A1''), (''Description'', PStr ''x'')]])\<rparr>))
       = None
   \<and> length (splitlines (csv_text (written_rows no_repr scenario_projection
        [[(''PermitNum'', PStr ''A1''), (''Description'', PStr ''x'')]]))) = 2"
proof -
  have c: "list_all (complete (map snd scenario_projection))
     [[(''PermitNum'', PStr ''A1''), (''Description'', PStr ''x'')]]"
    by (simp add: scenario_projection_def complete_def)
  have n: "list_all (list_all (\<lambda>f. \<not> has_newline f))
       (written_rows no_repr scenario_projection
          [[(''PermitNum'', PStr ''A1''), (''Description'', PStr ''x'')]])"
    by (simp add: scenario_projection_def written_rows_def fields_of_def has_newline_def)
  show ?thesis
    using c n rows_and_lines [OF c, of no_repr fresh] by simp
qed

text \<open>C4 fails as stated, in two ways: one record whose value has a line break gives a
  file of three lines, and one record that lacks the requested field gives a file of one
  line (the export raises before it writes a row for the record).\<close>

theorem rows_and_lines_counterexample:
  "map_option (\<lambda>t. length (splitlines t))
     (disk (csv_outfile (snd (save_to_csv no_repr [(''permit number'', ''PermitNum'')]
        (fresh\<lparr>bp_data := PList [PDict [(''PermitNum'', PStr (''a'' @ [LF] @ ''b''))]]\<rparr>)))))
     = Some 3
   \<and> map_option (\<lambda>t. length (splitlines t))
     (disk (csv_outfile (snd (save_to_csv no_repr [(''permit number'', ''PermitNum'')]
        (fresh\<lparr>bp_data := PList [PDict [(''Description'', PStr ''x'')]]\<rparr>)))))
     = Some 1"
  by (simp add: save_to_csv_def with_body_def fresh_def open_w_def close_def writerow_def
      write_text_def row_text_def quote_field_def special_def splitlines.simps line_end_def)

text \<open>
  C8, as amended. For every result set of records and every projection, the first row of
  the file is the caller's header; the rows after it are the cells of the requested
  fields, in the order of the projection, of the records that come before the first
  record lacking a requested field, row i + 1 from record i; nothing is written after
  the last row. When every record has every requested field, every record has its row.
  A CSV reader gets exactly these rows back.
\<close>

theorem rows_in_order:
  "disk (csv_outfile (snd (save_to_csv repr proj (nb\<lparr>bp_data := PList (map PDict rs)\<rparr>))))
     = Some (csv_text (written_rows repr proj (takeWhile (complete (map snd proj)) rs)))
   \<and> csv_reader (csv_text (written_rows repr proj (takeWhile (complete (map snd proj)) rs)))
     = Some (map fst proj
             # map (fields_of repr (map snd proj)) (takeWhile (complete (map snd proj)) rs))
   \<and> (list_all (complete (map snd proj)) rs \<longrightarrow>
        disk (csv_outfile (snd (save_to_csv repr proj (nb\<lparr>bp_data := PList (map PDict rs)\<rparr>))))
          = Some (csv_text (written_rows repr proj rs))
        \<and> csv_reader (csv_text (written_rows repr proj rs))
          = Some (map fst proj # map (fields_of repr (map snd proj)) rs))"
proof (intro conjI impI)
  show d: "disk (csv_outfile (snd (save_to_csv repr proj (nb\<lparr>bp_data := PList (map PDict rs)\<rparr>))))
     = Some (csv_text (written_rows repr proj (takeWhile (complete (map snd proj)) rs)))"
    by (simp add: save_to_csv_records csv_text_def written_rows_def)
  show "csv_reader (csv_text (written_rows repr proj (takeWhile (complete (map snd proj)) rs)))
     = Some (map fst proj
             # map (fields_of repr (map snd proj)) (takeWhile (complete (map snd proj)) rs))"
    unfolding csv_text_def read_rows by (simp add: written_rows_def)
  show "csv_reader (csv_text (written_rows repr proj rs))
          = Some (map fst proj # map (fields_of repr (map snd proj)) rs)"
    unfolding csv_text_def read_rows by (simp add: written_rows_def)
  assume "list_all (complete (map snd proj)) rs"
  then show "disk (csv_outfile (snd (save_to_csv repr proj (nb\<lparr>bp_data := PList (map PDict rs)\<rparr>))))
          = Some (csv_text (written_rows repr proj rs))"
    using d by (simp add: takeWhile_all)
qed

text \<open>The theorem at two complete records, the second with its fields in the other
  order.\<close>

theorem rows_in_order_witness:
  "list_all (complete (map snd scenario_projection))
     [[(''PermitNum'', PStr ''A1''), (''Description'', PStr ''x'')],
      [(''Description'', PStr ''y''), (''PermitNum'', PStr ''A2'')]]
   \<and> disk (csv_outfile (snd (save_to_csv no_repr scenario_projection
        (fresh\<lparr>bp_data := PList (map PDict
           [[(''PermitNum'', PStr ''A1''), (''Description'', PStr ''x'')],
            [(''Description'', PStr ''y''), (''PermitNum'', PStr ''A2'')]])\<rparr>))))
       = Some (''permit number,description'' @ [CR, LF] @ ''A1,x'' @ [CR, LF] @ ''A2,y'' @ [CR, LF])
   \<and> csv_reader (''permit number,description'' @ [CR, LF] @ ''A1,x'' @ [CR, LF] @ ''A2,y'' @ [CR, LF])
       = Some [[''permit number'', ''description''], [''A1'', ''x''], [''A2'', ''y'']]"
proof -
  have c: "list_all (complete (map snd scenario_projection))
     [[(''PermitNum'', PStr ''A1''), (''Description'', PStr ''x'')],
      [(''Description'', PStr ''y''), (''PermitNum'', PStr ''A2'')]]"
    by (simp add: scenario_projection_def complete_def)
  have t: "csv_text (written_rows no_repr scenario_projection
       [[(''PermitNum'', PStr ''A1''), (''Description'', PStr ''x'')],
        [(''Description'', PStr ''y''), (''PermitNum'', PStr ''A2'')]])
     = ''permit number,description'' @ [CR, LF] @ ''A1,x'' @ [CR, LF] @ ''A2,y'' @ [CR, LF]"
    by (simp add: csv_text_def written_rows_def scenario_projection_def fields_of_def
        row_text_def quote_field_def special_def)
  have f: "map fst scenario_projection
        # map (fields_of no_repr (map snd scenario_projection))
            [[(''PermitNum'', PStr ''A1''), (''Description'', PStr ''x'')],
             [(''Description'', PStr ''y''), (''PermitNum'', PStr ''A2'')]]
      = [[''permit number'', ''description''], [''A1'', ''x''], [''A2'', ''y'']]"
    by (simp add: scenario_projection_def fields_of_def)
  note th = rows_in_order [where repr = no_repr and proj = scenario_projection and nb = fresh
        and rs = "[[(''PermitNum'', PStr ''A1''), (''Description'', PStr ''x'')],
          [(''Description'', PStr ''y''), (''PermitNum'', PStr ''A2'')]]"]
  from th c have d: "disk (csv_outfile (snd (save_to_csv no_repr scenario_projection
        (fresh\<lparr>bp_data := PList (map PDict
           [[(''PermitNum'', PStr ''A1''), (''Description'', PStr ''x'')],
            [(''Description'', PStr ''y''), (''PermitNum'', PStr ''A2'')]])\<rparr>))))
       = Some (csv_text (written_rows no_repr scenario_projection
           [[(''PermitNum'', PStr ''A1''), (''Description'', PStr ''x'')],
            [(''Description'', PStr ''y''), (''PermitNum'', PStr ''A2'')]]))"
    by blast
  from th c have r: "csv_reader (csv_text (written_rows no_repr scenario_projection
           [[(''PermitNum'', PStr ''A1''), (''Description'', PStr ''x'')],
            [(''Description'', PStr ''y''), (''PermitNum'', PStr ''A2'')]]))
       = Some (map fst scenario_projection
        # map (fields_of no_repr (map snd scenario_projection))
            [[(''PermitNum'', PStr ''A1''), (''Description'', PStr ''x'')],
             [(''Description'', PStr ''y''), (''PermitNum'', PStr ''A2'')]])"
    by blast
  show ?thesis
    using c d [unfolded t] r [unfolded t f] by simp
qed

text \<open>C8 fails as stated: of two records the first lacks \<^verbatim>\<open>PermitNum\<close> and the second
  has it; the cell raises at the first, and the file is the header row alone, so the
  second record, complete as it is, has no row.\<close>

theorem rows_in_order_counterexample:
  "complete [''PermitNum''] [(''PermitNum'', PStr ''A2'')]
   \<and> save_to_csv no_repr [(''permit number'', ''PermitNum'')]
        (fresh\<lparr>bp_data := PList [PDict [(''Description'', PStr ''x'')],
                                   PDict [(''PermitNum'', PStr ''A2'')]]\<rparr>)
     = (Some (KeyError ''PermitNum''),
        \<lparr>bp_data = PList [PDict [(''Description'', PStr ''x'')],
                           PDict [(''PermitNum'', PStr ''A2'')]],
         csv_outfile = \<lparr>disk = Some (''permit number'' @ [CR, LF]), buffer = [],
                        is_open = False\<rparr>\<rparr>)
   \<and> csv_reader (''permit number'' @ [CR, LF]) = Some [[''permit number'']]"
proof -
  have "csv_reader (csv_text [[''permit number'']]) = Some [[''permit number'']]"
    unfolding csv_text_def by (rule read_rows)
  then have "csv_reader (''permit number'' @ [CR, LF]) = Some [[''permit number'']]"
    by (simp add: csv_text_def row_text_def quote_field_def special_def)
  then show ?thesis
    by (simp add: complete_def save_to_csv_def with_body_def fresh_def open_w_def close_def
        writerow_def write_text_def row_text_def quote_field_def special_def)
qed

text \<open>
  C6. Whatever strings the cells of the rows are (commas, double quotes, line breaks
  included), reading the written text with the CSV reader gives the rows back, cell by
  cell; in particular a single cell written as a row of its own reads back as itself.
\<close>

theorem csv_round_trip:
  "csv_reader (csv_text rows) = Some rows \<and> csv_reader (row_text [s]) = Some [[s]]"
  using read_rows [of rows] read_rows [of "[[s]]"] by (simp add: csv_text_def)

lemma quoting_example:
  "row_text [''a,b'', ''say '' @ [DQUOTE] @ ''hi'' @ [DQUOTE], []] =
     [DQUOTE] @ ''a,b'' @ [DQUOTE] @ '','' @ [DQUOTE] @ ''say '' @ [DQUOTE, DQUOTE] @ ''hi''
       @ [DQUOTE, DQUOTE, DQUOTE] @ '','' @ [CR, LF]"
  by (simp add: row_text_def quote_field_def special_def)

subsection \<open>The claim about the query\<close>

text \<open>
  C5. Every parameter name and value is written with letters, digits, \<^verbatim>\<open>_ . - ~\<close>,
  \<^verbatim>\<open>+\<close> and \<^verbatim>\<open>%\<close> escapes only (so no space, quote, parenthesis or comma remains),
  decoding an encoded string gives the string back, and decoding the query of the built
  URL gives the parameters of the endpoint's own query, if it has one, followed by
  exactly the names and values of the mapping, in its order; for an endpoint without a
  query of its own, as the notebook's, exactly the mapping.
\<close>

theorem query_round_trip:
  "parse_qsl (query_of (build_url endpoint params)) = parse_qsl (query_of endpoint) @ params
   \<and> (query_of endpoint = [] \<longrightarrow> parse_qsl (query_of (build_url endpoint params)) = params)
   \<and> parse_qsl (urlencode params) = params
   \<and> unquote_plus (quote_plus s) = s
   \<and> list_all url_safe (quote_plus s)
   \<and> CHR '' '' \<notin> set (quote_plus s) \<and> CHR 0x27 \<notin> set (quote_plus s)
   \<and> DQUOTE \<notin> set (quote_plus s) \<and> CHR ''('' \<notin> set (quote_plus s)
   \<and> CHR '')'' \<notin> set (quote_plus s) \<and> COMMA \<notin> set (quote_plus s)"
  using quote_plus_escapes [of s]
  by (simp add: build_url_query parse_urlencode unquote_quote quote_plus_safe parse_qsl_empty)

text \<open>The theorem at the notebook's endpoint and parameters.\<close>

theorem query_round_trip_witness:
  "query_of bp_endpoint = []
   \<and> parse_qsl (query_of (build_url bp_endpoint bp_api_params)) = bp_api_params"
proof -
  have q: "query_of bp_endpoint = []"
    by (simp add: query_of_def bp_endpoint_def)
  with query_round_trip [of bp_endpoint bp_api_params "[]"] show ?thesis
    by (simp add: parse_qsl_empty)
qed


end
